theory Spec2Isabelle
  imports Main "HOL-Library.Word"
begin

section \<open>Strings of the scanner\<close>

text \<open>
  The scanner is a JavaScript program (scripts/security/bidi_scan.mjs). A JavaScript
  string is a sequence of UTF-16 code units; \<open>length\<close>, \<open>substring\<close>, \<open>split\<close>, the
  index of a regular-expression match (the pattern has no \<open>u\<close> flag) and
  \<open>charCodeAt\<close> all count code units. File contents on disk are bytes.
\<close>

type_synonym code_unit = "16 word"
type_synonym jsstring = "code_unit list"
type_synonym byte = "8 word"

text \<open>An ASCII literal of the source as a JavaScript string.\<close>

definition js :: "string \<Rightarrow> jsstring" where
  "js s = map (\<lambda>c. word_of_nat (of_char c)) s"

text \<open>
  \<open>s.split(sep)\<close> for a separator of one code unit: the pieces between the
  occurrences of the separator; the empty string gives one empty piece.
\<close>

fun split :: "code_unit \<Rightarrow> jsstring \<Rightarrow> jsstring list" where
  "split sep [] = [[]]"
| "split sep (c # s) =
     (if c = sep then [] # split sep s
      else (case split sep s of
              [] \<Rightarrow> [[c]]
            | p # ps \<Rightarrow> (c # p) # ps))"

abbreviation newline :: code_unit where
  "newline \<equiv> 0x0A"

text \<open>
  \<open>String.prototype.trim\<close> removes leading and trailing WhiteSpace and
  LineTerminator code units (ECMAScript: TAB, VT, FF, SP, NBSP, ZWNBSP, the
  category Zs, and LF, CR, LS, PS).
\<close>

definition is_js_whitespace :: "code_unit \<Rightarrow> bool" where
  "is_js_whitespace c \<longleftrightarrow>
     c = 0x0009 \<or> c = 0x000A \<or> c = 0x000B \<or> c = 0x000C \<or> c = 0x000D \<or>
     c = 0x0020 \<or> c = 0x00A0 \<or> c = 0x1680 \<or> (0x2000 \<le> c \<and> c \<le> 0x200A) \<or>
     c = 0x2028 \<or> c = 0x2029 \<or> c = 0x202F \<or> c = 0x205F \<or> c = 0x3000 \<or>
     c = 0xFEFF"

definition trim :: "jsstring \<Rightarrow> jsstring" where
  "trim s = rev (dropWhile is_js_whitespace (rev (dropWhile is_js_whitespace s)))"

section \<open>The catalogue and the detection pattern\<close>

text \<open>
  \<open>UNSAFE_CHARS\<close> is an object literal: its own properties in source order, each key
  a string of one code unit. No statement of the program assigns to it.
\<close>

definition UNSAFE_CHARS :: "(jsstring \<times> string) list" where
  "UNSAFE_CHARS =
     [([0x202A], ''LRE (Left-to-Right Embedding)''),
      ([0x202B], ''RLE (Right-to-Left Embedding)''),
      ([0x202C], ''PDF (Pop Directional Formatting)''),
      ([0x202D], ''LRO (Left-to-Right Override)''),
      ([0x202E], ''RLO (Right-to-Left Override)''),
      ([0x2066], ''LRI (Left-to-Right Isolate)''),
      ([0x2067], ''RLI (Right-to-Left Isolate)''),
      ([0x2068], ''FSI (First Strong Isolate)''),
      ([0x2069], ''PDI (Pop Directional Isolate)''),
      ([0x200B], ''ZWSP (Zero Width Space)''),
      ([0x200C], ''ZWNJ (Zero Width Non-Joiner)''),
      ([0x200D], ''ZWJ (Zero Width Joiner)''),
      ([0x200E], ''LRM (Left-to-Right Mark)''),
      ([0x200F], ''RLM (Right-to-Left Mark)''),
      ([0xFEFF], ''BOM/ZWNBSP (Zero Width No-Break Space)'')]"

text \<open>
  \<open>UNSAFE_CHARS[key]\<close>: the value of the own property, \<open>undefined\<close> (here \<open>None\<close>)
  when there is none. No inherited property of an object literal has a key of one
  code unit, so only own properties are looked up.
\<close>

definition lookup :: "jsstring \<Rightarrow> string option" where
  "lookup key = map_of UNSAFE_CHARS key"

text \<open>
  \<open>new RegExp(Object.keys(UNSAFE_CHARS).join('|'), 'g')\<close>: none of the keys is a
  pattern metacharacter or an integer index, so the pattern is the alternation of the
  keys as literals, in source order. The alternatives are fixed; \<open>lastIndex\<close> is the
  one mutable field of the shared pattern object, and it is the state that the
  scanning functions thread.
\<close>

definition unsafePattern :: "jsstring list" where
  "unsafePattern = map fst UNSAFE_CHARS"

text \<open>An alternation of literals matches at the start of \<open>s\<close> with its first alternative
  that is a prefix of \<open>s\<close>.\<close>

definition match_at :: "jsstring list \<Rightarrow> jsstring \<Rightarrow> jsstring option" where
  "match_at alts s = find (\<lambda>a. take (length a) s = a) alts"

text \<open>The first index at or after \<open>i\<close> where the pattern matches; \<open>s\<close> is the content
  from index \<open>i\<close> on. The end of the string is tried as well.\<close>

fun find_match :: "jsstring list \<Rightarrow> jsstring \<Rightarrow> nat \<Rightarrow> (nat \<times> jsstring) option" where
  "find_match alts [] i =
     (case match_at alts [] of Some m \<Rightarrow> Some (i, m) | None \<Rightarrow> None)"
| "find_match alts (c # t) i =
     (case match_at alts (c # t) of
        Some m \<Rightarrow> Some (i, m)
      | None \<Rightarrow> find_match alts t (Suc i))"

text \<open>
  \<open>pattern.exec(content)\<close> of a global pattern, from \<open>lastIndex\<close>: the match (its index
  and \<open>match[0]\<close>) or \<open>null\<close>, and the new \<open>lastIndex\<close>: the end of the match, or 0 when
  there is none.
\<close>

definition regex_exec ::
  "jsstring list \<Rightarrow> jsstring \<Rightarrow> nat \<Rightarrow> (nat \<times> jsstring) option \<times> nat" where
  "regex_exec alts content lastIndex =
     (if lastIndex > length content then (None, 0)
      else (case find_match alts (drop lastIndex content) lastIndex of
              None \<Rightarrow> (None, 0)
            | Some (i, m) \<Rightarrow> (Some (i, m), i + length m)))"

section \<open>Findings\<close>

record finding =
  char :: jsstring
  codepoint :: string
  name :: "string option"
  position :: nat
  line :: nat

text \<open>\<open>Number.prototype.toString(radix)\<close> of a non-negative integer.\<close>

definition digit_char :: "nat \<Rightarrow> char" where
  "digit_char d = ''0123456789abcdefghijklmnopqrstuvwxyz'' ! d"

function number_toString :: "nat \<Rightarrow> nat \<Rightarrow> string" where
  "number_toString radix n =
     (if radix < 2 \<or> n < radix then [digit_char n]
      else number_toString radix (n div radix) @ [digit_char (n mod radix)])"
  by pat_completeness auto
termination
  by (relation "measure (\<lambda>(radix, n). n)") auto

declare number_toString.simps [simp del]

text \<open>\<open>toUpperCase\<close> on the ASCII strings it is applied to here.\<close>

definition toUpperCase :: "string \<Rightarrow> string" where
  "toUpperCase s =
     map (\<lambda>c. case map_of (zip ''abcdefghijklmnopqrstuvwxyz''
                               ''ABCDEFGHIJKLMNOPQRSTUVWXYZ'') c of
                 None \<Rightarrow> c
               | Some u \<Rightarrow> u) s"

definition padStart :: "nat \<Rightarrow> char \<Rightarrow> string \<Rightarrow> string" where
  "padStart n c s = replicate (n - length s) c @ s"

text \<open>\<open>char.charCodeAt(0)\<close>: \<open>NaN\<close> (here \<open>None\<close>) on the empty string.\<close>

definition charCodeAt0 :: "jsstring \<Rightarrow> nat option" where
  "charCodeAt0 s = (case s of [] \<Rightarrow> None | c # _ \<Rightarrow> Some (unat c))"

definition codepoint_label :: "jsstring \<Rightarrow> string" where
  "codepoint_label ch =
     ''U+'' @ padStart 4 (CHR ''0'')
       (toUpperCase (case charCodeAt0 ch of
                       None \<Rightarrow> ''NaN''
                     | Some n \<Rightarrow> number_toString 16 n))"

text \<open>The body of the \<open>while\<close> loop of \<open>scanFile\<close>: the finding for one match.\<close>

definition mk_finding :: "jsstring \<Rightarrow> nat \<Rightarrow> jsstring \<Rightarrow> finding" where
  "mk_finding content idx m =
     (let beforeMatch = take idx content;
          lineNumber = length (split newline beforeMatch)
      in \<lparr>char = m, codepoint = codepoint_label m, name = lookup m,
          position = idx, line = lineNumber\<rparr>)"

lemma match_at_SomeD:
  "match_at alts s = Some m \<Longrightarrow> m \<in> set alts \<and> take (length m) s = m"
  unfolding match_at_def find_Some_iff by (metis nth_mem)

lemma find_match_bounds:
  "find_match alts s i = Some (j, m) \<Longrightarrow> i \<le> j \<and> j \<le> i + length s \<and> m \<in> set alts"
proof (induction s arbitrary: i)
  case Nil
  then show ?case
    by (auto split: option.splits dest: match_at_SomeD)
next
  case (Cons c s)
  show ?case
  proof (cases "match_at alts (c # s)")
    case None
    with Cons.prems have "find_match alts s (Suc i) = Some (j, m)" by simp
    from Cons.IH [OF this] show ?thesis by simp
  next
    case (Some m')
    with Cons.prems have "j = i" "m = m'" by simp_all
    with Some show ?thesis
      by (auto dest: match_at_SomeD)
  qed
qed

lemma unsafePattern_nonempty: "m \<in> set unsafePattern \<Longrightarrow> length m = 1"
  by (auto simp: unsafePattern_def UNSAFE_CHARS_def)

lemma regex_exec_advances:
  assumes "regex_exec unsafePattern content li = (Some (idx, m), li')"
  shows "li < li' \<and> li \<le> length content"
proof -
  from assms have le: "li \<le> length content"
    by (auto simp: regex_exec_def split: if_splits)
  with assms have fm: "find_match unsafePattern (drop li content) li = Some (idx, m)"
    and li': "li' = idx + length m"
    by (auto simp: regex_exec_def split: option.splits)
  from find_match_bounds [OF fm] have "li \<le> idx" "m \<in> set unsafePattern" by simp_all
  with li' unsafePattern_nonempty [of m] le show ?thesis by simp
qed

text \<open>
  The loop \<open>while ((match = unsafePattern.exec(content)) !== null)\<close>, from the current
  \<open>lastIndex\<close>: the findings pushed so far, and on exit the findings and the
  \<open>lastIndex\<close> the last \<open>exec\<close> left.
\<close>

function scan_loop :: "jsstring \<Rightarrow> nat \<Rightarrow> finding list \<Rightarrow> finding list \<times> nat" where
  "scan_loop content lastIndex findings =
     (case regex_exec unsafePattern content lastIndex of
        (None, li) \<Rightarrow> (findings, li)
      | (Some (idx, m), li) \<Rightarrow> scan_loop content li (findings @ [mk_finding content idx m]))"
  by pat_completeness auto
termination
proof (relation "measure (\<lambda>(content, li, findings). Suc (length content) - li)")
  show "wf (measure (\<lambda>(content, li, findings). Suc (length content) - li))" by simp
next
  fix content :: jsstring and lastIndex :: nat and findings :: "finding list"
    and x1 x2 x y z
  assume "(x1, x2) = regex_exec unsafePattern content lastIndex" "x1 = Some x" "(y, z) = x"
  then have "regex_exec unsafePattern content lastIndex = (Some (y, z), x2)" by simp
  from regex_exec_advances [OF this]
  show "((content, x2, findings @ [mk_finding content y z]), (content, lastIndex, findings))
          \<in> measure (\<lambda>(content, li, findings). Suc (length content) - li)"
    by auto
qed

declare scan_loop.simps [simp del]

section \<open>Reading a file\<close>

text \<open>
  \<open>readFileSync(filePath, 'utf-8')\<close> either throws (no such file, a directory, no
  permission) or returns the bytes of the file decoded as UTF-8. The decoder of the
  platform does not throw on bytes that are not UTF-8: it replaces every maximal
  ill-formed subsequence by U+FFFD and goes on. It keeps a leading byte order mark.
  Strings have no length limit in the model.
\<close>

definition in_range :: "byte \<Rightarrow> byte \<Rightarrow> byte \<Rightarrow> bool" where
  "in_range lo hi b \<longleftrightarrow> lo \<le> b \<and> b \<le> hi"

definition replacement :: nat where
  "replacement = 0xFFFD"

fun utf8_decode :: "byte list \<Rightarrow> nat list" where
  "utf8_decode [] = []"
| "utf8_decode [b] = (if b < 0x80 then [unat b] else [replacement])"
| "utf8_decode (b # c # r) =
     (if b < 0x80 then unat b # utf8_decode (c # r)
      else if in_range 0xC2 0xDF b then
        (if in_range 0x80 0xBF c
         then ((unat b - 0xC0) * 0x40 + (unat c - 0x80)) # utf8_decode r
         else replacement # utf8_decode (c # r))
      else if in_range 0xE0 0xEF b then
        (if in_range (if b = 0xE0 then 0xA0 else 0x80) (if b = 0xED then 0x9F else 0xBF) c
         then (case r of
                 [] \<Rightarrow> [replacement]
               | d # r' \<Rightarrow>
                   if in_range 0x80 0xBF d
                   then ((unat b - 0xE0) * 0x1000 + (unat c - 0x80) * 0x40 + (unat d - 0x80))
                        # utf8_decode r'
                   else replacement # utf8_decode (d # r'))
         else replacement # utf8_decode (c # r))
      else if in_range 0xF0 0xF4 b then
        (if in_range (if b = 0xF0 then 0x90 else 0x80) (if b = 0xF4 then 0x8F else 0xBF) c
         then (case r of
                 [] \<Rightarrow> [replacement]
               | d # r' \<Rightarrow>
                   if in_range 0x80 0xBF d
                   then (case r' of
                           [] \<Rightarrow> [replacement]
                         | e # r'' \<Rightarrow>
                             if in_range 0x80 0xBF e
                             then ((unat b - 0xF0) * 0x40000 + (unat c - 0x80) * 0x1000
                                   + (unat d - 0x80) * 0x40 + (unat e - 0x80))
                                  # utf8_decode r''
                             else replacement # utf8_decode (e # r''))
                   else replacement # utf8_decode (d # r'))
         else replacement # utf8_decode (c # r))
      else replacement # utf8_decode (c # r))"

text \<open>A code point as the code units of a JavaScript string: one unit in the Basic
  Multilingual Plane, a surrogate pair above it.\<close>

definition utf16_units :: "nat \<Rightarrow> jsstring" where
  "utf16_units cp =
     (if cp < 0x10000 then [word_of_nat cp]
      else [0xD800 + word_of_nat ((cp - 0x10000) div 0x400),
            0xDC00 + word_of_nat ((cp - 0x10000) mod 0x400)])"

definition string_of_codepoints :: "nat list \<Rightarrow> jsstring" where
  "string_of_codepoints cps = concat (map utf16_units cps)"

text \<open>
  What the program reads from its environment: the output of \<open>git ls-files\<close> (\<open>None\<close>
  when \<open>execSync\<close> throws), the bytes of each file (\<open>None\<close> when reading throws) and
  whether the report file can be written.
\<close>

record world =
  git_ls_files :: "jsstring option"
  file_bytes :: "jsstring \<Rightarrow> byte list option"
  report_writable :: bool

definition readFileSync :: "world \<Rightarrow> jsstring \<Rightarrow> jsstring option" where
  "readFileSync w filePath =
     map_option (\<lambda>bytes. string_of_codepoints (utf8_decode bytes)) (file_bytes w filePath)"

text \<open>
  \<open>scanFile\<close>, with the \<open>lastIndex\<close> of the shared pattern passed in and out. An
  exception of \<open>readFileSync\<close> is caught and the result is the empty list; the reset
  \<open>unsafePattern.lastIndex = 0\<close> comes after the read.
\<close>

definition scanFile :: "world \<Rightarrow> nat \<Rightarrow> jsstring \<Rightarrow> finding list \<times> nat" where
  "scanFile w lastIndex filePath =
     (case readFileSync w filePath of
        None \<Rightarrow> ([], lastIndex)
      | Some content \<Rightarrow> scan_loop content 0 [])"

section \<open>The file list\<close>

text \<open>\<open>getGitFiles\<close>: \<open>None\<close> stands for the \<open>catch\<close> branch, which ends the process
  with status 1.\<close>

definition getGitFiles :: "world \<Rightarrow> jsstring list option" where
  "getGitFiles w =
     map_option (\<lambda>output. filter (\<lambda>f. length (trim f) > 0) (split newline output))
       (git_ls_files w)"

section \<open>The report object\<close>

text \<open>
  \<open>results\<close> starts as the object literal \<open>{}\<close>: its own properties, in the order of
  their creation. The assignment \<open>results[file] = findings\<close> creates or overwrites an
  own property, except for the key \<open>__proto__\<close>: that one is the accessor inherited
  from \<open>Object.prototype\<close>, whose setter replaces the prototype of \<open>results\<close> by the
  array and creates no own property.
\<close>

type_synonym results = "(jsstring \<times> finding list) list"

definition set_property :: "results \<Rightarrow> jsstring \<Rightarrow> finding list \<Rightarrow> results" where
  "set_property obj key v =
     (if key = js ''__proto__'' then obj
      else if key \<in> fst ` set obj
      then map (\<lambda>(k, x). if k = key then (k, v) else (k, x)) obj
      else obj @ [(key, v)])"

text \<open>
  The own keys are enumerated (\<open>Object.keys\<close>, \<open>Object.entries\<close>, \<open>JSON.stringify\<close>)
  with the array indices first, in ascending order, then the other keys in creation
  order. An array index is the canonical decimal numeral of an integer below
  \<open>2^32 - 1\<close>.
\<close>

definition is_digit :: "code_unit \<Rightarrow> bool" where
  "is_digit c \<longleftrightarrow> 0x30 \<le> c \<and> c \<le> 0x39"

definition decimal_value :: "jsstring \<Rightarrow> nat" where
  "decimal_value s = foldl (\<lambda>n c. 10 * n + (unat c - 0x30)) 0 s"

definition is_array_index :: "jsstring \<Rightarrow> bool" where
  "is_array_index key \<longleftrightarrow>
     key \<noteq> [] \<and> list_all is_digit key \<and> (hd key \<noteq> 0x30 \<or> length key = 1) \<and>
     decimal_value key < 2 ^ 32 - 1"

definition own_entries :: "results \<Rightarrow> results" where
  "own_entries obj =
     sort_key (\<lambda>(k, v). decimal_value k) (filter (\<lambda>(k, v). is_array_index k) obj)
     @ filter (\<lambda>(k, v). \<not> is_array_index k) obj"

definition object_keys :: "results \<Rightarrow> jsstring list" where
  "object_keys obj = map fst (own_entries obj)"

section \<open>The structured report\<close>

text \<open>\<open>JSON.stringify(results, null, 2)\<close>. A string is quoted with the escapes of
  \<open>QuoteJSONString\<close>: the short escapes, and a backslash, the letter u and four lower-case
  hexadecimal digits for the other control units and for a surrogate that is not part of a pair.\<close>

definition is_high_surrogate :: "code_unit \<Rightarrow> bool" where
  "is_high_surrogate c \<longleftrightarrow> 0xD800 \<le> c \<and> c \<le> 0xDBFF"

definition is_low_surrogate :: "code_unit \<Rightarrow> bool" where
  "is_low_surrogate c \<longleftrightarrow> 0xDC00 \<le> c \<and> c \<le> 0xDFFF"

definition backslash :: char where
  "backslash = CHR 0x5C"

definition dquote :: char where
  "dquote = CHR 0x22"

definition unicode_escape :: "code_unit \<Rightarrow> jsstring" where
  "unicode_escape c =
     js (backslash # ''u'' @ padStart 4 (CHR ''0'') (number_toString 16 (unat c)))"

definition escape_unit :: "code_unit \<Rightarrow> jsstring" where
  "escape_unit c =
     (if c = 0x08 then js (backslash # ''b'')
      else if c = 0x09 then js (backslash # ''t'')
      else if c = 0x0A then js (backslash # ''n'')
      else if c = 0x0C then js (backslash # ''f'')
      else if c = 0x0D then js (backslash # ''r'')
      else if c = 0x22 then js [backslash, dquote]
      else if c = 0x5C then js [backslash, backslash]
      else if c < 0x20 \<or> is_high_surrogate c \<or> is_low_surrogate c then unicode_escape c
      else [c])"

fun quote_units :: "jsstring \<Rightarrow> jsstring" where
  "quote_units [] = []"
| "quote_units [c] = escape_unit c"
| "quote_units (c # d # r) =
     (if is_high_surrogate c \<and> is_low_surrogate d then c # d # quote_units r
      else escape_unit c @ quote_units (d # r))"

definition quote_json :: "jsstring \<Rightarrow> jsstring" where
  "quote_json s = js [dquote] @ quote_units s @ js [dquote]"

definition indent :: "nat \<Rightarrow> jsstring" where
  "indent level = replicate (2 * level) 0x20"

fun join :: "jsstring \<Rightarrow> jsstring list \<Rightarrow> jsstring" where
  "join sep [] = []"
| "join sep [x] = x"
| "join sep (x # y # r) = x @ sep @ join sep (y # r)"

definition json_block :: "string \<Rightarrow> string \<Rightarrow> nat \<Rightarrow> jsstring list \<Rightarrow> jsstring" where
  "json_block opening closing level items =
     (if items = [] then js (opening @ closing)
      else js opening @ [newline] @ indent (Suc level)
           @ join (js '','' @ [newline] @ indent (Suc level)) items
           @ [newline] @ indent level @ js closing)"

definition json_member :: "jsstring \<Rightarrow> jsstring \<Rightarrow> jsstring" where
  "json_member key v = quote_json key @ js '': '' @ v"

definition json_number :: "nat \<Rightarrow> jsstring" where
  "json_number n = js (number_toString 10 n)"

text \<open>A property whose value is \<open>undefined\<close> is left out of the object.\<close>

definition json_finding :: "nat \<Rightarrow> finding \<Rightarrow> jsstring" where
  "json_finding level f =
     json_block ''{'' ''}'' level
       ([json_member (js ''char'') (quote_json (char f)),
         json_member (js ''codepoint'') (quote_json (js (codepoint f)))]
        @ (case name f of
             None \<Rightarrow> []
           | Some n \<Rightarrow> [json_member (js ''name'') (quote_json (js n))])
        @ [json_member (js ''position'') (json_number (position f)),
           json_member (js ''line'') (json_number (line f))])"

definition JSON_stringify :: "results \<Rightarrow> jsstring" where
  "JSON_stringify obj =
     json_block ''{'' ''}'' 0
       (map (\<lambda>(k, fs). json_member k (json_block ''['' '']'' 1 (map (json_finding 2) fs)))
          (own_entries obj))"

section \<open>The scan run\<close>

definition jsonPath :: jsstring where
  "jsonPath = js ''docs/ops/reports/_tmp_bidi_scan.json''"

text \<open>The loop \<open>for (const file of files)\<close> of \<open>main\<close>. Beside \<open>results\<close> and
  \<open>totalFindings\<close> it threads the \<open>lastIndex\<close> of the shared pattern and records the
  paths \<open>scanFile\<close> was called with.\<close>

record scan_state =
  results_of :: results
  totalFindings :: nat
  lastIndex_of :: nat
  scanned :: "jsstring list"

fun scan_files :: "world \<Rightarrow> jsstring list \<Rightarrow> scan_state \<Rightarrow> scan_state" where
  "scan_files w [] st = st"
| "scan_files w (file # files) st =
     (let (findings, li) = scanFile w (lastIndex_of st) file;
          st' = st\<lparr>lastIndex_of := li, scanned := scanned st @ [file]\<rparr>
      in scan_files w files
           (if length findings > 0
            then st'\<lparr>results_of := set_property (results_of st') file findings,
                     totalFindings := totalFindings st' + length findings\<rparr>
            else st'))"

text \<open>
  How a run ends: \<open>getGitFiles\<close> failed (status 1, nothing scanned or written),
  \<open>writeFileSync\<close> threw (an uncaught exception ends the process with status 1), or
  \<open>process.exit\<close> at the end of \<open>main\<close> was reached. A run records the paths
  \<open>scanFile\<close> was called with and the calls of \<open>writeFileSync\<close>, each with its path and
  its data, in order; \<open>report\<close> and \<open>total_count\<close> are \<open>results\<close> and \<open>totalFindings\<close>
  after the loop. \<open>files_written\<close> holds the writes that took effect, each with the
  path of the file and the content it has afterwards: a call of \<open>writeFileSync\<close> that
  throws writes no file. The console output is not part of the model; no branch
  depends on it.
\<close>

datatype ending = EnumerationFailed | WriteFailed | Completed

record run =
  ending_of :: ending
  exit_status :: nat
  report :: results
  total_count :: nat
  scanned_paths :: "jsstring list"
  report_writes :: "(jsstring \<times> jsstring) list"
  files_written :: "(jsstring \<times> jsstring) list"

definition initial_state :: scan_state where
  "initial_state = \<lparr>results_of = [], totalFindings = 0, lastIndex_of = 0, scanned = []\<rparr>"

definition main :: "world \<Rightarrow> run" where
  "main w =
     (case getGitFiles w of
        None \<Rightarrow>
          \<lparr>ending_of = EnumerationFailed, exit_status = 1, report = [], total_count = 0,
           scanned_paths = [], report_writes = [], files_written = []\<rparr>
      | Some files \<Rightarrow>
          (let st = scan_files w files initial_state;
               r = \<lparr>ending_of = Completed,
                    exit_status = (if totalFindings st > 0 then 1 else 0),
                    report = results_of st, total_count = totalFindings st,
                    scanned_paths = scanned st,
                    report_writes = [(jsonPath, JSON_stringify (results_of st))],
                    files_written = [(jsonPath, JSON_stringify (results_of st))]\<rparr>
           in if report_writable w then r
              else r\<lparr>ending_of := WriteFailed, exit_status := 1, files_written := []\<rparr>))"

section \<open>What a scan of one content returns\<close>

text \<open>A code unit is catalogued when it is a key of \<open>UNSAFE_CHARS\<close>.\<close>

definition catalogued :: "code_unit \<Rightarrow> bool" where
  "catalogued c \<longleftrightarrow> lookup [c] \<noteq> None"

text \<open>The catalogued code units of a string with their indices, counted from \<open>i\<close>,
  in one pass from left to right.\<close>

fun occurrences :: "nat \<Rightarrow> jsstring \<Rightarrow> (nat \<times> code_unit) list" where
  "occurrences i [] = []"
| "occurrences i (c # s) = (if catalogued c then [(i, c)] else []) @ occurrences (Suc i) s"

lemma match_at_unsafe_Nil: "match_at unsafePattern [] = None"
  by (simp add: match_at_def unsafePattern_def UNSAFE_CHARS_def)

lemma match_at_unsafe_Cons:
  "match_at unsafePattern (c # s) = (if catalogued c then Some [c] else None)"
  by (simp add: match_at_def unsafePattern_def UNSAFE_CHARS_def catalogued_def lookup_def)

lemma find_match_unsafe:
  "find_match unsafePattern s i =
     (case occurrences i s of [] \<Rightarrow> None | (j, c) # _ \<Rightarrow> Some (j, [c]))"
  by (induction s arbitrary: i) (simp_all add: match_at_unsafe_Nil match_at_unsafe_Cons)

lemma occurrences_first:
  "occurrences i s = (j, c) # rest \<Longrightarrow>
     i \<le> j \<and> j < i + length s \<and> rest = occurrences (Suc j) (drop (Suc j - i) s)"
proof (induction s arbitrary: i)
  case Nil
  then show ?case by simp
next
  case (Cons a s)
  show ?case
  proof (cases "catalogued a")
    case True
    with Cons.prems show ?thesis by auto
  next
    case False
    with Cons.prems have "occurrences (Suc i) s = (j, c) # rest" by simp
    from Cons.IH [OF this] show ?thesis
      by (auto simp: Suc_diff_le)
  qed
qed

lemma scan_loop_occurrences:
  "li \<le> length content \<Longrightarrow>
     scan_loop content li acc =
       (acc @ map (\<lambda>(j, c). mk_finding content j [c]) (occurrences li (drop li content)), 0)"
proof (induction content li acc rule: scan_loop.induct)
  case (1 content li acc)
  show ?case
  proof (cases "occurrences li (drop li content)")
    case Nil
    with "1.prems" show ?thesis
      by (simp add: scan_loop.simps [of content li] regex_exec_def find_match_unsafe)
  next
    case (Cons p rest)
    obtain j c where p: "p = (j, c)" by (cases p)
    from occurrences_first [OF Cons [unfolded p]] "1.prems"
    have j: "li \<le> j" "j < length content"
      and rest: "rest = occurrences (Suc j) (drop (Suc j) content)"
      by (simp_all add: Suc_diff_le)
    have ex: "regex_exec unsafePattern content li = (Some (j, [c]), Suc j)"
      using "1.prems" Cons p by (simp add: regex_exec_def find_match_unsafe)
    have "scan_loop content li acc = scan_loop content (Suc j) (acc @ [mk_finding content j [c]])"
      by (simp add: scan_loop.simps [of content li] ex)
    also have "\<dots> = ((acc @ [mk_finding content j [c]])
        @ map (\<lambda>(j, c). mk_finding content j [c]) (occurrences (Suc j) (drop (Suc j) content)), 0)"
      using "1.IH" [OF ex [symmetric] refl refl] j by simp
    finally show ?thesis
      by (simp add: Cons p rest)
  qed
qed

lemma occurrences_filter:
  "occurrences i s = map (\<lambda>k. (i + k, s ! k)) (filter (\<lambda>k. catalogued (s ! k)) [0..<length s])"
proof (induction s arbitrary: i)
  case Nil
  then show ?case by simp
next
  case (Cons a s)
  have upt: "[0..<length (a # s)] = 0 # map Suc [0..<length s]"
    by (simp add: upt_conv_Cons map_Suc_upt del: upt_Suc)
  show ?case
    unfolding upt by (simp add: Cons.IH filter_map comp_def)
qed

lemma split_length: "length (split sep s) = Suc (length (filter (\<lambda>c. c = sep) s))"
  by (induction s) (auto split: list.splits)


text \<open>A small environment: two tracked paths, of which \<open>a.txt\<close> holds the line
  \<open>a\<close> and then U+202E and \<open>b\<close>, and \<open>b.bin\<close> cannot be read.\<close>

definition example_world :: world where
  "example_world =
     \<lparr>git_ls_files = Some (js ''a.txt'' @ [newline] @ js ''b.bin'' @ [newline]),
      file_bytes = (\<lambda>p. if p = js ''a.txt''
                         then Some [0x61, 0x0A, 0xE2, 0x80, 0xAE, 0x62] else None),
      report_writable = True\<rparr>"

lemma example_world_a:
  "readFileSync example_world (js ''a.txt'') = Some [0x61, 0x0A, 0x202E, 0x62]"
  by (simp add: readFileSync_def example_world_def string_of_codepoints_def
      utf16_units_def in_range_def)

lemma scanFile_findings:
  assumes "readFileSync w filePath = Some content"
  shows "scanFile w li filePath =
           (map (\<lambda>(j, c). mk_finding content j [c]) (occurrences 0 content), 0)"
  using assms by (simp add: scanFile_def scan_loop_occurrences)

lemma position_mk_finding [simp]: "position (mk_finding content j m) = j"
  by (simp add: mk_finding_def Let_def)

lemma line_mk_finding:
  "line (mk_finding content j m) = Suc (length (filter (\<lambda>c. c = newline) (take j content)))"
  by (simp add: mk_finding_def Let_def split_length)

lemma scanFile_positions:
  assumes "readFileSync w filePath = Some content"
  shows "map position (fst (scanFile w li filePath)) =
           filter (\<lambda>i. catalogued (content ! i)) [0..<length content]"
  by (simp add: scanFile_findings [OF assms] occurrences_filter comp_def)

text \<open>
  C2. For a file that can be read, with decoded content \<open>content\<close>, the offsets of the
  findings of \<open>scanFile\<close>, in the order returned, are exactly the indices of \<open>content\<close>
  that hold a catalogued code unit, in ascending order: every occurrence is reported
  once, no other index is reported, and the offsets strictly increase. This holds
  whatever \<open>lastIndex\<close> earlier scans left in the shared pattern.
\<close>

theorem scanFile_each_occurrence_once:
  assumes "readFileSync w filePath = Some content"
  shows "map position (fst (scanFile w li filePath)) =
           filter (\<lambda>i. catalogued (content ! i)) [0..<length content]
         \<and> sorted_wrt (<) (map position (fst (scanFile w li filePath)))
         \<and> distinct (map position (fst (scanFile w li filePath)))"
proof -
  have "sorted_wrt (<) (filter (\<lambda>i. catalogued (content ! i)) [0..<length content])"
    by (rule sorted_wrt_filter) (rule sorted_wrt_upt)
  moreover have "distinct (filter (\<lambda>i. catalogued (content ! i)) [0..<length content])"
    by simp
  ultimately show ?thesis by (simp only: scanFile_positions [OF assms] simp_thms)
qed

lemma example_world_scan:
  "fst (scanFile example_world 0 (js ''a.txt'')) =
     [\<lparr>char = [0x202E], codepoint = ''U+202E'',
       name = Some ''RLO (Right-to-Left Override)'', position = 2, line = 2\<rparr>]"
  by (simp add: scanFile_findings [OF example_world_a] catalogued_def lookup_def
      UNSAFE_CHARS_def mk_finding_def codepoint_label_def charCodeAt0_def
      number_toString.simps [of 16] digit_char_def toUpperCase_def padStart_def)

theorem scanFile_each_occurrence_once_witness:
  "readFileSync example_world (js ''a.txt'') = Some [0x61, 0x0A, 0x202E, 0x62]
   \<and> map position (fst (scanFile example_world 0 (js ''a.txt''))) =
       filter (\<lambda>i. catalogued ([0x61, 0x0A, 0x202E, 0x62] ! i))
         [0..<length [0x61, 0x0A, 0x202E, 0x62 :: code_unit]]
   \<and> map position (fst (scanFile example_world 0 (js ''a.txt''))) = [2]"
proof (intro conjI)
  show "readFileSync example_world (js ''a.txt'') = Some [0x61, 0x0A, 0x202E, 0x62]"
    by (rule example_world_a)
  show "map position (fst (scanFile example_world 0 (js ''a.txt''))) =
       filter (\<lambda>i. catalogued ([0x61, 0x0A, 0x202E, 0x62] ! i))
         [0..<length [0x61, 0x0A, 0x202E, 0x62 :: code_unit]]"
    by (rule scanFile_each_occurrence_once [OF example_world_a, of 0, THEN conjunct1])
  show "map position (fst (scanFile example_world 0 (js ''a.txt''))) = [2]"
    by (simp add: example_world_scan)
qed

text \<open>
  C3. The line of a finding is 1 plus the number of line feeds of the decoded content
  strictly before the offset of the finding.
\<close>

theorem finding_line_number:
  assumes "readFileSync w filePath = Some content"
    and "f \<in> set (fst (scanFile w li filePath))"
  shows "line f = 1 + length (filter (\<lambda>c. c = newline) (take (position f) content))"
  using assms(2) by (auto simp: scanFile_findings [OF assms(1)] line_mk_finding)

theorem finding_line_number_witness:
  "readFileSync example_world (js ''a.txt'') = Some [0x61, 0x0A, 0x202E, 0x62]
   \<and> (\<exists>f. f \<in> set (fst (scanFile example_world 0 (js ''a.txt''))) \<and> line f = 2)"
proof -
  let ?f = "\<lparr>char = [0x202E], codepoint = ''U+202E'',
       name = Some ''RLO (Right-to-Left Override)'', position = 2, line = 2\<rparr>"
  have mem: "?f \<in> set (fst (scanFile example_world 0 (js ''a.txt'')))"
    by (simp add: example_world_scan)
  from finding_line_number [OF example_world_a mem]
  have "line ?f = 2" by simp
  with mem have "\<exists>f. f \<in> set (fst (scanFile example_world 0 (js ''a.txt''))) \<and> line f = 2"
    by (intro exI [of _ ?f] conjI)
  with example_world_a show ?thesis by (rule_tac conjI)
qed

section \<open>Offsets and characters\<close>

text \<open>A character, as a code point, is in the catalogue when its one code unit is a
  key of \<open>UNSAFE_CHARS\<close>; every catalogued character lies in the Basic Multilingual
  Plane.\<close>

definition in_catalogue :: "nat \<Rightarrow> bool" where
  "in_catalogue cp \<longleftrightarrow> cp < 0x10000 \<and> catalogued (word_of_nat cp)"

lemma string_of_codepoints_append:
  "string_of_codepoints (xs @ ys) = string_of_codepoints xs @ string_of_codepoints ys"
  by (simp add: string_of_codepoints_def)

lemma length_string_of_codepoints:
  "length (string_of_codepoints cps) = length cps + length (filter (\<lambda>cp. 0x10000 \<le> cp) cps)"
  by (induction cps) (simp_all add: string_of_codepoints_def utf16_units_def)

lemma string_of_codepoints_nth:
  assumes "i < length cps" and "cps ! i < 0x10000"
  shows "length (string_of_codepoints (take i cps)) < length (string_of_codepoints cps)
         \<and> string_of_codepoints cps ! length (string_of_codepoints (take i cps))
             = word_of_nat (cps ! i)"
proof -
  have "cps = take i cps @ cps ! i # drop (Suc i) cps"
    using assms(1) by (simp add: id_take_nth_drop)
  then have "string_of_codepoints cps =
      string_of_codepoints (take i cps) @ word_of_nat (cps ! i) # string_of_codepoints (drop (Suc i) cps)"
    using assms(2)
    by (metis (no_types, lifting) append_Cons append_Nil concat.simps(2) list.simps(9)
        string_of_codepoints_append string_of_codepoints_def utf16_units_def)
  then show ?thesis
    by (metis add_Suc_right length_Cons length_append less_add_Suc1 nth_append_length)
qed

lemma scanFile_finding_at:
  assumes "readFileSync w filePath = Some content"
    and "k < length content" and "catalogued (content ! k)"
  shows "mk_finding content k [content ! k] \<in> set (fst (scanFile w li filePath))"
proof -
  have "(0 + k, content ! k) \<in> set (occurrences 0 content)"
    unfolding occurrences_filter using assms(2,3) by (auto simp: image_iff)
  then show ?thesis
    by (force simp: scanFile_findings [OF assms(1)])
qed

lemma char_mk_finding [simp]: "char (mk_finding content j m) = m"
  by (simp add: mk_finding_def Let_def)

text \<open>
  C5, as amended. The decoded content of a readable file is the list of characters
  \<open>utf8_decode bytes\<close>. For every character of it that is in the catalogue, at
  character index \<open>i\<close>, \<open>scanFile\<close> returns a finding for that character whose offset is
  the number of UTF-16 code units before it: \<open>i\<close> plus the number of characters
  outside the Basic Multilingual Plane among the \<open>i\<close> characters before it. So the
  offset is the character index exactly when no earlier character lies outside that
  plane.
\<close>

theorem finding_offset_counts_code_units:
  assumes "file_bytes w filePath = Some bytes"
    and "i < length (utf8_decode bytes)"
    and "in_catalogue (utf8_decode bytes ! i)"
  shows "\<exists>f \<in> set (fst (scanFile w li filePath)).
           char f = [word_of_nat (utf8_decode bytes ! i)]
           \<and> position f = length (string_of_codepoints (take i (utf8_decode bytes)))
           \<and> position f = i + length (filter (\<lambda>cp. 0x10000 \<le> cp) (take i (utf8_decode bytes)))"
proof -
  let ?cps = "utf8_decode bytes"
  let ?content = "string_of_codepoints ?cps"
  let ?k = "length (string_of_codepoints (take i ?cps))"
  have rd: "readFileSync w filePath = Some ?content"
    using assms(1) by (simp add: readFileSync_def)
  from assms(3) have bmp: "?cps ! i < 0x10000" and cat: "catalogued (word_of_nat (?cps ! i))"
    by (simp_all add: in_catalogue_def)
  from string_of_codepoints_nth [OF assms(2) bmp]
  have k: "?k < length ?content" and nth: "?content ! ?k = word_of_nat (?cps ! i)"
    by simp_all
  from scanFile_finding_at [OF rd k] cat nth
  have "mk_finding ?content ?k [word_of_nat (?cps ! i)] \<in> set (fst (scanFile w li filePath))"
    by simp
  moreover have "?k = i + length (filter (\<lambda>cp. 0x10000 \<le> cp) (take i ?cps))"
    using assms(2) by (simp add: length_string_of_codepoints)
  ultimately show ?thesis
    by (intro bexI [of _ "mk_finding ?content ?k [word_of_nat (?cps ! i)]"]) simp_all
qed

text \<open>An environment whose one file holds U+1F600 and then U+202E.\<close>

definition astral_world :: world where
  "astral_world =
     \<lparr>git_ls_files = Some (js ''e.js'' @ [newline]),
      file_bytes = (\<lambda>p. if p = js ''e.js''
                         then Some [0xF0, 0x9F, 0x98, 0x80, 0xE2, 0x80, 0xAE] else None),
      report_writable = True\<rparr>"

lemma astral_decode:
  "utf8_decode [0xF0, 0x9F, 0x98, 0x80, 0xE2, 0x80, 0xAE] = [0x1F600, 0x202E]"
  by (simp add: in_range_def)

lemma astral_read:
  "readFileSync astral_world (js ''e.js'') = Some [0xD83D, 0xDE00, 0x202E]"
  by (simp add: readFileSync_def astral_world_def string_of_codepoints_def
      utf16_units_def in_range_def)

lemma astral_scan:
  "fst (scanFile astral_world 0 (js ''e.js'')) =
     [\<lparr>char = [0x202E], codepoint = ''U+202E'',
       name = Some ''RLO (Right-to-Left Override)'', position = 2, line = 1\<rparr>]"
  by (simp add: scanFile_findings [OF astral_read] catalogued_def lookup_def
      UNSAFE_CHARS_def mk_finding_def codepoint_label_def charCodeAt0_def
      number_toString.simps [of 16] digit_char_def toUpperCase_def padStart_def)

lemma astral_bytes:
  "file_bytes astral_world (js ''e.js'') = Some [0xF0, 0x9F, 0x98, 0x80, 0xE2, 0x80, 0xAE]"
  by (simp add: astral_world_def)

lemma in_catalogue_202E: "in_catalogue 0x202E"
  by (simp add: in_catalogue_def catalogued_def lookup_def UNSAFE_CHARS_def)

text \<open>
  C5 as stated fails: in a file holding U+1F600 and then U+202E, the catalogued
  character has character index 1, and the only finding has offset 2.
\<close>

theorem offset_is_not_character_index:
  "file_bytes astral_world (js ''e.js'') = Some [0xF0, 0x9F, 0x98, 0x80, 0xE2, 0x80, 0xAE]
   \<and> utf8_decode [0xF0, 0x9F, 0x98, 0x80, 0xE2, 0x80, 0xAE] = [0x1F600, 0x202E]
   \<and> in_catalogue ([0x1F600, 0x202E] ! 1)
   \<and> map position (fst (scanFile astral_world 0 (js ''e.js''))) = [2]"
proof (intro conjI)
  show "in_catalogue ([0x1F600, 0x202E] ! 1)"
    using in_catalogue_202E by simp
  show "map position (fst (scanFile astral_world 0 (js ''e.js''))) = [2]"
    by (simp add: astral_scan)
qed (rule astral_bytes, rule astral_decode)

theorem finding_offset_counts_code_units_witness:
  "file_bytes astral_world (js ''e.js'') = Some [0xF0, 0x9F, 0x98, 0x80, 0xE2, 0x80, 0xAE]
   \<and> (1::nat) < length (utf8_decode [0xF0, 0x9F, 0x98, 0x80, 0xE2, 0x80, 0xAE])
   \<and> in_catalogue (utf8_decode [0xF0, 0x9F, 0x98, 0x80, 0xE2, 0x80, 0xAE] ! 1)
   \<and> (\<exists>f. f \<in> set (fst (scanFile astral_world 0 (js ''e.js''))) \<and> position f = 2)"
proof -
  have i: "(1::nat) < length (utf8_decode [0xF0, 0x9F, 0x98, 0x80, 0xE2, 0x80, 0xAE])"
    by (simp only: astral_decode) simp
  have c: "in_catalogue (utf8_decode [0xF0, 0x9F, 0x98, 0x80, 0xE2, 0x80, 0xAE] ! 1)"
    using in_catalogue_202E by (simp only: astral_decode) simp
  have one: "length (filter (\<lambda>cp. 0x10000 \<le> cp)
            (take 1 (utf8_decode [0xF0, 0x9F, 0x98, 0x80, 0xE2, 0x80, 0xAE]))) = 1"
    by (simp only: astral_decode) simp
  from finding_offset_counts_code_units [OF astral_bytes i c, of 0]
  obtain f where f: "f \<in> set (fst (scanFile astral_world 0 (js ''e.js'')))"
    and "position f = 1 + length (filter (\<lambda>cp. 0x10000 \<le> cp)
            (take 1 (utf8_decode [0xF0, 0x9F, 0x98, 0x80, 0xE2, 0x80, 0xAE])))"
    by blast
  then have "position f = 2" by (simp only: one)
  with f have "\<exists>f. f \<in> set (fst (scanFile astral_world 0 (js ''e.js''))) \<and> position f = 2"
    by (intro exI [of _ f] conjI)
  with astral_bytes i c show ?thesis by (intro conjI)
qed

section \<open>The file list and the run\<close>

lemma trim_nonempty:
  "length (trim f) > 0 \<longleftrightarrow> (\<exists>c \<in> set f. \<not> is_js_whitespace c)"
proof -
  let ?d = "dropWhile is_js_whitespace f"
  have "trim f = [] \<longleftrightarrow> (\<forall>c \<in> set ?d. is_js_whitespace c)"
    by (simp add: trim_def dropWhile_eq_Nil_conv)
  also have "\<dots> \<longleftrightarrow> ?d = []"
  proof (cases "?d = []")
    case True
    then show ?thesis by (auto dest: set_dropWhileD)
  next
    case False
    then have "\<not> is_js_whitespace (hd ?d)" by (rule hd_dropWhile)
    moreover from False have "hd ?d \<in> set ?d" by simp
    ultimately show ?thesis using False by blast
  qed
  also have "\<dots> \<longleftrightarrow> (\<forall>c \<in> set f. is_js_whitespace c)"
    by (simp add: dropWhile_eq_Nil_conv)
  finally show ?thesis by auto
qed

lemma split_not_Nil [simp]: "split sep s \<noteq> []"
  by (induction s) (auto split: list.splits)

lemma split_no_separator: "p \<in> set (split sep s) \<Longrightarrow> sep \<notin> set p"
  by (induction s arbitrary: p) (auto split: list.splits if_splits)

lemma join_Cons: "ps \<noteq> [] \<Longrightarrow> join sep (p # ps) = p @ sep @ join sep ps"
  by (cases ps) simp_all

lemma join_split: "join [sep] (split sep s) = s"
proof (induction s)
  case Nil
  then show ?case by simp
next
  case (Cons c s)
  show ?case
  proof (cases "c = sep")
    case True
    then show ?thesis using Cons.IH by (simp add: join_Cons)
  next
    case False
    obtain p ps where sp: "split sep s = p # ps"
      by (cases "split sep s") simp_all
    with Cons.IH have "join [sep] (p # ps) = s" by simp
    then have "join [sep] ((c # p) # ps) = c # s"
      by (cases ps) auto
    with False sp show ?thesis by simp
  qed
qed

text \<open>The findings of a path; they do not depend on the \<open>lastIndex\<close> passed in.\<close>

definition findings_of :: "world \<Rightarrow> jsstring \<Rightarrow> finding list" where
  "findings_of w filePath = fst (scanFile w 0 filePath)"

lemma scanFile_eq:
  "scanFile w li filePath =
     (findings_of w filePath, if readFileSync w filePath = None then li else 0)"
  by (cases "readFileSync w filePath")
    (simp_all add: findings_of_def scanFile_def scan_loop_occurrences)

text \<open>One pass of the loop of \<open>main\<close> on the report object.\<close>

definition record_findings :: "world \<Rightarrow> results \<Rightarrow> jsstring \<Rightarrow> results" where
  "record_findings w obj file =
     (if findings_of w file = [] then obj else set_property obj file (findings_of w file))"

lemma scan_files_eq:
  "lastIndex_of st = 0 \<Longrightarrow>
     scan_files w files st =
       \<lparr>results_of = foldl (record_findings w) (results_of st) files,
        totalFindings = totalFindings st + sum_list (map (\<lambda>p. length (findings_of w p)) files),
        lastIndex_of = 0,
        scanned = scanned st @ files\<rparr>"
proof (induction files arbitrary: st)
  case Nil
  then show ?case by simp
next
  case (Cons p ps)
  show ?case
    by (simp add: scanFile_eq Cons.prems Cons.IH record_findings_def)
qed

lemma main_eq:
  assumes "git_ls_files w = Some output"
  shows "scanned_paths (main w) = filter (\<lambda>f. length (trim f) > 0) (split newline output)"
    and "total_count (main w) = sum_list (map (\<lambda>p. length (findings_of w p)) (scanned_paths (main w)))"
    and "report (main w) = foldl (record_findings w) [] (scanned_paths (main w))"
    and "report_writes (main w) = [(jsonPath, JSON_stringify (report (main w)))]"
    and "exit_status (main w) = (if report_writable w \<and> total_count (main w) = 0 then 0 else 1)"
    and "ending_of (main w) = (if report_writable w then Completed else WriteFailed)"
    and "files_written (main w) = (if report_writable w then report_writes (main w) else [])"
  using assms
  by (simp_all add: main_def getGitFiles_def scan_files_eq initial_state_def Let_def)


section \<open>Labels and names\<close>

text \<open>The catalogue as the table of the specification gives it: code point and name.\<close>

definition spec_catalogue :: "(nat \<times> string) list" where
  "spec_catalogue =
     [(0x202A, ''LRE (Left-to-Right Embedding)''),
      (0x202B, ''RLE (Right-to-Left Embedding)''),
      (0x202C, ''PDF (Pop Directional Formatting)''),
      (0x202D, ''LRO (Left-to-Right Override)''),
      (0x202E, ''RLO (Right-to-Left Override)''),
      (0x2066, ''LRI (Left-to-Right Isolate)''),
      (0x2067, ''RLI (Right-to-Left Isolate)''),
      (0x2068, ''FSI (First Strong Isolate)''),
      (0x2069, ''PDI (Pop Directional Isolate)''),
      (0x200B, ''ZWSP (Zero Width Space)''),
      (0x200C, ''ZWNJ (Zero Width Non-Joiner)''),
      (0x200D, ''ZWJ (Zero Width Joiner)''),
      (0x200E, ''LRM (Left-to-Right Mark)''),
      (0x200F, ''RLM (Right-to-Left Mark)''),
      (0xFEFF, ''BOM/ZWNBSP (Zero Width No-Break Space)'')]"

text \<open>The four upper-case hexadecimal digits of a number below \<open>16^4\<close>.\<close>

definition upper_hex_digit :: "nat \<Rightarrow> char" where
  "upper_hex_digit d = ''0123456789ABCDEF'' ! d"

definition hex4 :: "nat \<Rightarrow> string" where
  "hex4 n = [upper_hex_digit (n div 4096 mod 16), upper_hex_digit (n div 256 mod 16),
             upper_hex_digit (n div 16 mod 16), upper_hex_digit (n mod 16)]"

lemma catalogued_cases:
  "catalogued c \<Longrightarrow>
     c \<in> {0x202A, 0x202B, 0x202C, 0x202D, 0x202E, 0x2066, 0x2067, 0x2068, 0x2069,
          0x200B, 0x200C, 0x200D, 0x200E, 0x200F, 0xFEFF}"
  by (simp add: catalogued_def lookup_def UNSAFE_CHARS_def split: if_splits)

lemma codepoint_label_catalogued:
  assumes "catalogued c"
  shows "codepoint_label [c] = ''U+'' @ hex4 (unat c)"
  using catalogued_cases [OF assms]
  by (elim insertE emptyE)
    (simp_all add: codepoint_label_def charCodeAt0_def number_toString.simps [of 16]
      digit_char_def toUpperCase_def padStart_def hex4_def upper_hex_digit_def)

lemma scanFile_member:
  assumes "f \<in> set (fst (scanFile w li filePath))"
  shows "\<exists>content j. readFileSync w filePath = Some content \<and> j < length content
           \<and> catalogued (content ! j) \<and> f = mk_finding content j [content ! j]"
proof (cases "readFileSync w filePath")
  case None
  with assms show ?thesis by (simp add: scanFile_def)
next
  case (Some content)
  with assms show ?thesis
    by (auto simp: scanFile_findings [OF Some] occurrences_filter)
qed

lemma lookup_catalogued:
  assumes "catalogued c"
  shows "lookup [c] = map_of spec_catalogue (unat c)"
  using catalogued_cases [OF assms]
  by (elim insertE emptyE) (simp_all add: lookup_def UNSAFE_CHARS_def spec_catalogue_def)

lemma finding_label_and_name:
  assumes "f \<in> set (fst (scanFile w li filePath))"
  shows "\<exists>c. char f = [c] \<and> codepoint f = ''U+'' @ hex4 (unat c)
             \<and> name f = map_of UNSAFE_CHARS (char f)
             \<and> name f = map_of spec_catalogue (unat c) \<and> name f \<noteq> None"
proof -
  from scanFile_member [OF assms] obtain content j
    where cat: "catalogued (content ! j)" and f: "f = mk_finding content j [content ! j]"
    by blast
  have ch: "char f = [content ! j]"
    by (simp add: f)
  have label: "codepoint f = ''U+'' @ hex4 (unat (content ! j))"
    by (simp add: f mk_finding_def Let_def codepoint_label_catalogued [OF cat])
  have nm: "name f = lookup [content ! j]"
    by (simp add: f mk_finding_def Let_def)
  have own: "name f = map_of UNSAFE_CHARS (char f)"
    by (simp only: nm ch lookup_def)
  have table: "name f = map_of spec_catalogue (unat (content ! j))"
    by (simp only: nm lookup_catalogued [OF cat])
  have present: "name f \<noteq> None"
    using cat by (simp add: nm catalogued_def)
  from ch label own table present show ?thesis
    by (intro exI [of _ "content ! j"] conjI)
qed

text \<open>
  C10. When \<open>git ls-files\<close> returns \<open>output\<close>, \<open>main\<close> calls \<open>scanFile\<close> with exactly
  the pieces of \<open>output\<close> between line feeds (the pieces hold no line feed, and joined
  by line feeds they give \<open>output\<close> back) that hold a code unit that is not
  white space, in their order; the empty path is never scanned. Every finding of
  every scan has as \<open>char\<close> one code unit \<open>c\<close>, as \<open>codepoint\<close> the label \<open>U+\<close> and the
  four upper-case hexadecimal digits of \<open>c\<close>, and as \<open>name\<close> the value that the
  catalogue \<open>UNSAFE_CHARS\<close> holds under the key \<open>char\<close>, which is the name the table
  of the specification gives for the code point \<open>c\<close>; the name is present.
\<close>

theorem scanned_paths_and_labels:
  assumes "git_ls_files w = Some output"
  shows "scanned_paths (main w) =
           filter (\<lambda>seg. \<exists>c \<in> set seg. \<not> is_js_whitespace c) (split newline output)
         \<and> join [newline] (split newline output) = output
         \<and> (\<forall>seg \<in> set (split newline output). newline \<notin> set seg)
         \<and> [] \<notin> set (scanned_paths (main w))
         \<and> (\<forall>p li. \<forall>f \<in> set (fst (scanFile w li p)).
               \<exists>c. char f = [c] \<and> codepoint f = ''U+'' @ hex4 (unat c)
                   \<and> name f = map_of UNSAFE_CHARS (char f)
                   \<and> name f = map_of spec_catalogue (unat c) \<and> name f \<noteq> None)"
proof -
  have paths: "scanned_paths (main w) =
      filter (\<lambda>seg. \<exists>c \<in> set seg. \<not> is_js_whitespace c) (split newline output)"
    unfolding main_eq(1) [OF assms] trim_nonempty by (rule refl)
  have nonempty: "[] \<notin> set (scanned_paths (main w))"
    by (simp add: paths)
  have joined: "join [newline] (split newline output) = output"
    by (rule join_split)
  have segs: "\<forall>seg \<in> set (split newline output). newline \<notin> set seg"
    by (blast dest: split_no_separator)
  have labels: "\<forall>p li. \<forall>f \<in> set (fst (scanFile w li p)).
               \<exists>c. char f = [c] \<and> codepoint f = ''U+'' @ hex4 (unat c)
                   \<and> name f = map_of UNSAFE_CHARS (char f)
                   \<and> name f = map_of spec_catalogue (unat c) \<and> name f \<noteq> None"
    by (intro allI ballI) (rule finding_label_and_name)
  from paths joined segs nonempty labels show ?thesis
    by (intro conjI)
qed

lemma example_world_git:
  "git_ls_files example_world = Some (js ''a.txt'' @ [newline] @ js ''b.bin'' @ [newline])"
  by (simp add: example_world_def)

lemma example_world_split:
  "split newline (js ''a.txt'' @ [newline] @ js ''b.bin'' @ [newline])
     = [js ''a.txt'', js ''b.bin'', []]"
  by (simp add: js_def)

theorem scanned_paths_and_labels_witness:
  "git_ls_files example_world = Some (js ''a.txt'' @ [newline] @ js ''b.bin'' @ [newline])
   \<and> scanned_paths (main example_world) = [js ''a.txt'', js ''b.bin'']
   \<and> map name (fst (scanFile example_world 0 (js ''a.txt''))) =
       [Some ''RLO (Right-to-Left Override)'']
   \<and> map_of spec_catalogue 0x202E = Some ''RLO (Right-to-Left Override)''"
proof -
  from scanned_paths_and_labels [OF example_world_git]
  have "scanned_paths (main example_world) =
      filter (\<lambda>seg. \<exists>c \<in> set seg. \<not> is_js_whitespace c)
        (split newline (js ''a.txt'' @ [newline] @ js ''b.bin'' @ [newline]))"
    by (rule conjunct1)
  also have "\<dots> = filter (\<lambda>seg. \<exists>c \<in> set seg. \<not> is_js_whitespace c)
      [js ''a.txt'', js ''b.bin'', []]"
    by (simp only: example_world_split)
  also have "\<dots> = [js ''a.txt'', js ''b.bin'']"
    by (simp add: js_def is_js_whitespace_def)
  finally have paths: "scanned_paths (main example_world) = [js ''a.txt'', js ''b.bin'']" .
  have names: "map name (fst (scanFile example_world 0 (js ''a.txt''))) =
       [Some ''RLO (Right-to-Left Override)'']"
    by (simp add: example_world_scan)
  have table: "map_of spec_catalogue 0x202E = Some ''RLO (Right-to-Left Override)''"
    by (simp add: spec_catalogue_def)
  from example_world_git paths names table show ?thesis by (intro conjI)
qed

section \<open>Exit status and the report file\<close>

lemma main_completed:
  assumes "ending_of (main w) = Completed"
  shows "\<exists>output. git_ls_files w = Some output" and "report_writable w"
  using assms
  by (auto simp: main_def getGitFiles_def Let_def split: option.splits if_splits)

text \<open>
  C1. In a run that reaches \<open>process.exit\<close> at the end of \<open>main\<close>, the total is the
  sum, over the scanned paths, of the number of findings of each, and the exit status
  is 0 when that total is 0 and 1 otherwise.
\<close>

theorem exit_status_zero_iff_no_findings:
  assumes "ending_of (main w) = Completed"
  shows "total_count (main w) = (\<Sum>p\<leftarrow>scanned_paths (main w). length (fst (scanFile w 0 p)))
         \<and> exit_status (main w) = (if total_count (main w) = 0 then 0 else 1)
         \<and> (exit_status (main w) = 0 \<longleftrightarrow> total_count (main w) = 0)"
proof -
  from main_completed [OF assms] obtain out
    where git: "git_ls_files w = Some out" and wr: "report_writable w"
    by blast
  have "total_count (main w) = (\<Sum>p\<leftarrow>scanned_paths (main w). length (fst (scanFile w 0 p)))"
    using main_eq(2) [OF git] by (simp add: findings_of_def)
  moreover have "exit_status (main w) = (if total_count (main w) = 0 then 0 else 1)"
    using main_eq(5) [OF git] wr by simp
  ultimately show ?thesis by simp
qed

lemma example_world_paths:
  "scanned_paths (main example_world) = [js ''a.txt'', js ''b.bin'']"
  unfolding main_eq(1) [OF example_world_git] example_world_split
  by (simp add: js_def trim_def is_js_whitespace_def)

lemma example_world_b: "fst (scanFile example_world 0 (js ''b.bin'')) = []"
  by (simp add: scanFile_def readFileSync_def example_world_def js_def)

lemma example_world_completed: "ending_of (main example_world) = Completed"
  using main_eq(6) [OF example_world_git] by (simp add: example_world_def)

theorem exit_status_zero_iff_no_findings_witness:
  "ending_of (main example_world) = Completed
   \<and> total_count (main example_world) = 1 \<and> exit_status (main example_world) = 1"
proof -
  from exit_status_zero_iff_no_findings [OF example_world_completed]
  have t: "total_count (main example_world) =
      (\<Sum>p\<leftarrow>scanned_paths (main example_world). length (fst (scanFile example_world 0 p)))"
    and e: "exit_status (main example_world) = (if total_count (main example_world) = 0 then 0 else 1)"
    by simp_all
  have "total_count (main example_world) = 1"
    unfolding t example_world_paths by (simp add: example_world_scan example_world_b)
  with e example_world_completed show ?thesis by simp
qed

lemma foldl_record_findings_none:
  "\<forall>p \<in> set files. findings_of w p = [] \<Longrightarrow> foldl (record_findings w) obj files = obj"
  by (induction files arbitrary: obj) (simp_all add: record_findings_def)

lemma JSON_stringify_empty: "JSON_stringify [] = js ''{}''"
  by (simp add: JSON_stringify_def own_entries_def json_block_def)

text \<open>
  C8, as amended. When \<open>git ls-files\<close> has returned and the call of \<open>writeFileSync\<close>
  does not throw, the run writes the report file exactly once: the one write that
  takes effect is the one call of \<open>writeFileSync\<close> the run makes, at the fixed path
  \<open>docs/ops/reports/_tmp_bidi_scan.json\<close>, and the content of the file is the
  serialization of the report object. This includes the runs whose total is 0, where
  the content is \<open>{}\<close>, the serialization of the empty object.
\<close>

theorem report_written_exactly_once:
  assumes "git_ls_files w = Some output" and "report_writable w"
  shows "files_written (main w) = [(jsonPath, JSON_stringify (report (main w)))]
         \<and> report_writes (main w) = files_written (main w)
         \<and> jsonPath = js ''docs/ops/reports/_tmp_bidi_scan.json''
         \<and> (total_count (main w) = 0 \<longrightarrow> files_written (main w) = [(jsonPath, js ''{}'')])"
proof -
  have calls: "report_writes (main w) = [(jsonPath, JSON_stringify (report (main w)))]"
    by (rule main_eq(4) [OF assms(1)])
  have same: "report_writes (main w) = files_written (main w)"
    using assms(2) by (simp add: main_eq(7) [OF assms(1)])
  have written: "files_written (main w) = [(jsonPath, JSON_stringify (report (main w)))]"
    using calls same by simp
  have "report (main w) = []" if "total_count (main w) = 0"
  proof -
    from that have "\<forall>p \<in> set (scanned_paths (main w)). findings_of w p = []"
      by (simp add: main_eq(2) [OF assms(1)])
    then show ?thesis
      by (simp add: main_eq(3) [OF assms(1)] foldl_record_findings_none)
  qed
  then have empty: "total_count (main w) = 0 \<longrightarrow> files_written (main w) = [(jsonPath, js ''{}'')]"
    using written by (simp add: JSON_stringify_empty)
  have path: "jsonPath = js ''docs/ops/reports/_tmp_bidi_scan.json''"
    by (rule jsonPath_def)
  from written same path empty show ?thesis by (intro conjI)
qed

text \<open>An environment with one tracked file, which holds no catalogued character.\<close>

definition clean_world :: world where
  "clean_world =
     \<lparr>git_ls_files = Some (js ''c.txt'' @ [newline]),
      file_bytes = (\<lambda>p. if p = js ''c.txt'' then Some [0x6F, 0x6B, 0x0A] else None),
      report_writable = True\<rparr>"

lemma clean_world_git: "git_ls_files clean_world = Some (js ''c.txt'' @ [newline])"
  by (simp add: clean_world_def)

lemma clean_world_writable: "report_writable clean_world"
  by (simp add: clean_world_def)

lemma clean_world_paths: "scanned_paths (main clean_world) = [js ''c.txt'']"
  unfolding main_eq(1) [OF clean_world_git]
  by (simp add: js_def trim_def is_js_whitespace_def)

lemma clean_world_read: "readFileSync clean_world (js ''c.txt'') = Some [0x6F, 0x6B, 0x0A]"
  by (simp add: readFileSync_def clean_world_def string_of_codepoints_def
      utf16_units_def in_range_def)

lemma clean_world_scan: "findings_of clean_world (js ''c.txt'') = []"
  by (simp add: findings_of_def scanFile_findings [OF clean_world_read] catalogued_def
      lookup_def UNSAFE_CHARS_def)

lemma clean_world_total: "total_count (main clean_world) = 0"
  unfolding main_eq(2) [OF clean_world_git] clean_world_paths
  by (simp add: clean_world_scan)

theorem report_written_exactly_once_witness:
  "git_ls_files clean_world = Some (js ''c.txt'' @ [newline])
   \<and> report_writable clean_world
   \<and> total_count (main clean_world) = 0
   \<and> files_written (main clean_world) = [(js ''docs/ops/reports/_tmp_bidi_scan.json'', js ''{}'')]"
proof -
  from report_written_exactly_once [OF clean_world_git clean_world_writable]
  have imp: "total_count (main clean_world) = 0 \<longrightarrow>
      files_written (main clean_world) = [(jsonPath, js ''{}'')]"
    and path: "jsonPath = js ''docs/ops/reports/_tmp_bidi_scan.json''"
    by blast+
  from imp clean_world_total
  have "files_written (main clean_world) = [(jsonPath, js ''{}'')]" by (rule mp)
  then have "files_written (main clean_world) =
      [(js ''docs/ops/reports/_tmp_bidi_scan.json'', js ''{}'')]"
    by (simp only: path)
  with clean_world_git clean_world_writable clean_world_total show ?thesis by (intro conjI)
qed

text \<open>The same environment, except that the report file cannot be written (the
  directory \<open>docs/ops/reports\<close> is missing, say): \<open>writeFileSync\<close> throws.\<close>

definition unwritable_world :: world where
  "unwritable_world = clean_world\<lparr>report_writable := False\<rparr>"

lemma unwritable_world_git: "git_ls_files unwritable_world = Some (js ''c.txt'' @ [newline])"
  by (simp add: unwritable_world_def clean_world_def)

lemma unwritable_world_not_writable: "\<not> report_writable unwritable_world"
  by (simp add: unwritable_world_def)

lemma unwritable_world_paths: "scanned_paths (main unwritable_world) = [js ''c.txt'']"
  unfolding main_eq(1) [OF unwritable_world_git]
  by (simp add: js_def trim_def is_js_whitespace_def)

lemma unwritable_world_scan: "findings_of unwritable_world (js ''c.txt'') = []"
proof -
  have "findings_of unwritable_world (js ''c.txt'') = findings_of clean_world (js ''c.txt'')"
    by (simp add: findings_of_def scanFile_def readFileSync_def unwritable_world_def)
  then show ?thesis by (simp only: clean_world_scan)
qed

lemma unwritable_world_report: "report (main unwritable_world) = []"
  unfolding main_eq(3) [OF unwritable_world_git] unwritable_world_paths
  by (simp add: record_findings_def unwritable_world_scan)

text \<open>
  C8 as stated fails: in this run \<open>git ls-files\<close> returns and the one file is scanned,
  so enumeration completes; \<open>main\<close> calls \<open>writeFileSync\<close> once, the call throws, no
  report file is written and the process ends with status 1.
\<close>

theorem report_not_written_when_write_throws:
  "git_ls_files unwritable_world = Some (js ''c.txt'' @ [newline])
   \<and> scanned_paths (main unwritable_world) = [js ''c.txt'']
   \<and> report_writes (main unwritable_world) = [(jsonPath, js ''{}'')]
   \<and> files_written (main unwritable_world) = []
   \<and> ending_of (main unwritable_world) = WriteFailed
   \<and> exit_status (main unwritable_world) = 1"
proof (intro conjI)
  show "git_ls_files unwritable_world = Some (js ''c.txt'' @ [newline])"
    by (rule unwritable_world_git)
  show "scanned_paths (main unwritable_world) = [js ''c.txt'']"
    by (rule unwritable_world_paths)
  show "report_writes (main unwritable_world) = [(jsonPath, js ''{}'')]"
    by (simp add: main_eq(4) [OF unwritable_world_git] unwritable_world_report
        JSON_stringify_empty)
  show "files_written (main unwritable_world) = []"
    by (simp add: main_eq(7) [OF unwritable_world_git] unwritable_world_not_writable)
  show "ending_of (main unwritable_world) = WriteFailed"
    by (simp add: main_eq(6) [OF unwritable_world_git] unwritable_world_not_writable)
  show "exit_status (main unwritable_world) = 1"
    by (simp add: main_eq(5) [OF unwritable_world_git] unwritable_world_not_writable)
qed

section \<open>Determinism\<close>

lemma findings_of_cong:
  "readFileSync w p = readFileSync w' p' \<Longrightarrow> findings_of w p = findings_of w' p'"
  by (simp add: findings_of_def scanFile_def)

lemma record_findings_cong:
  assumes "\<forall>q \<in> set files. findings_of w q = findings_of w' q"
  shows "foldl (record_findings w) obj files = foldl (record_findings w') obj files"
  using assms by (induction files arbitrary: obj) (simp_all add: record_findings_def)

lemma main_enumeration_failed:
  "git_ls_files w = None \<Longrightarrow> report_writes (main w) = [] \<and> scanned_paths (main w) = []
     \<and> exit_status (main w) = 1 \<and> ending_of (main w) = EnumerationFailed"
  by (simp add: main_def getGitFiles_def)

lemma report_writes_cong:
  assumes git: "git_ls_files w = git_ls_files w'"
    and rd: "\<forall>q \<in> set (scanned_paths (main w)). readFileSync w q = readFileSync w' q"
  shows "report_writes (main w) = report_writes (main w')"
proof (cases "git_ls_files w")
  case None
  with git show ?thesis by (simp add: main_enumeration_failed)
next
  case (Some out)
  with git have git': "git_ls_files w' = Some out" by simp
  have paths: "scanned_paths (main w') = scanned_paths (main w)"
    by (simp add: main_eq(1) [OF Some] main_eq(1) [OF git'])
  from rd have "\<forall>q \<in> set (scanned_paths (main w)). findings_of w q = findings_of w' q"
    by (intro ballI findings_of_cong) simp
  then have "report (main w) = report (main w')"
    by (simp add: main_eq(3) [OF Some] main_eq(3) [OF git'] paths record_findings_cong)
  then show ?thesis
    by (simp add: main_eq(4) [OF Some] main_eq(4) [OF git'])
qed

text \<open>
  C7. The findings of \<open>scanFile\<close> are a function of the decoded content alone: two
  scans of the same content return the same findings, whatever the \<open>lastIndex\<close> each
  finds in the shared pattern, that is, whatever scans ran before or between them. The
  \<open>lastIndex\<close> of the shared pattern is the only shared state \<open>scanFile\<close> writes, and it
  is 0, its value when the module is loaded, after every scan and after the whole
  loop of \<open>main\<close>. Two runs with the same file list and the same contents of the listed
  files make the same write of the report, to the same path with the same data.
\<close>

theorem scan_is_pure_and_deterministic:
  "(readFileSync w p = readFileSync w' p' \<longrightarrow>
      fst (scanFile w li p) = fst (scanFile w' li' p'))
   \<and> snd (scanFile w 0 p) = 0
   \<and> lastIndex_of (scan_files w files initial_state) = 0
   \<and> (git_ls_files w = git_ls_files w'
       \<and> (\<forall>q \<in> set (scanned_paths (main w)). readFileSync w q = readFileSync w' q) \<longrightarrow>
      report_writes (main w) = report_writes (main w'))"
proof (intro conjI impI)
  assume "readFileSync w p = readFileSync w' p'"
  then have "findings_of w p = findings_of w' p'" by (rule findings_of_cong)
  then show "fst (scanFile w li p) = fst (scanFile w' li' p')"
    by (simp add: scanFile_eq)
next
  show "snd (scanFile w 0 p) = 0" by (simp add: scanFile_eq)
next
  show "lastIndex_of (scan_files w files initial_state) = 0"
    by (simp add: scan_files_eq initial_state_def)
next
  assume "git_ls_files w = git_ls_files w'
       \<and> (\<forall>q \<in> set (scanned_paths (main w)). readFileSync w q = readFileSync w' q)"
  then show "report_writes (main w) = report_writes (main w')"
    by (intro report_writes_cong) simp_all
qed

text \<open>The environment \<open>example_world\<close> with one more file, which is not tracked.\<close>

definition other_world :: world where
  "other_world =
     example_world\<lparr>file_bytes :=
       (\<lambda>p. if p = js ''z'' then Some [0x41] else file_bytes example_world p)\<rparr>"

lemma other_world_read:
  "q \<in> set [js ''a.txt'', js ''b.bin''] \<Longrightarrow> readFileSync example_world q = readFileSync other_world q"
  by (auto simp: readFileSync_def other_world_def js_def)

theorem scan_is_pure_and_deterministic_witness:
  "readFileSync example_world (js ''a.txt'') = readFileSync other_world (js ''a.txt'')
   \<and> fst (scanFile example_world 0 (js ''a.txt'')) = fst (scanFile other_world 7 (js ''a.txt''))
   \<and> git_ls_files example_world = git_ls_files other_world
   \<and> report_writes (main example_world) = report_writes (main other_world)"
proof -
  have rd: "readFileSync example_world (js ''a.txt'') = readFileSync other_world (js ''a.txt'')"
    by (rule other_world_read) simp
  have git: "git_ls_files example_world = git_ls_files other_world"
    by (simp add: other_world_def)
  have all: "\<forall>q \<in> set (scanned_paths (main example_world)).
      readFileSync example_world q = readFileSync other_world q"
    unfolding example_world_paths by (intro ballI) (rule other_world_read)
  note t = scan_is_pure_and_deterministic
    [of example_world "js ''a.txt''" other_world "js ''a.txt''" 0 7 "[]"]
  from t [THEN conjunct1] rd
  have scans: "fst (scanFile example_world 0 (js ''a.txt'')) =
      fst (scanFile other_world 7 (js ''a.txt''))"
    by (rule mp)
  from t [THEN conjunct2, THEN conjunct2, THEN conjunct2] conjI [OF git all]
  have "report_writes (main example_world) = report_writes (main other_world)"
    by (rule mp)
  with rd scans git show ?thesis by (intro conjI)
qed

section \<open>The catalogue\<close>

text \<open>
  C9. The properties of \<open>UNSAFE_CHARS\<close> are, in order, the fifteen entries of the table
  of the specification: each key is the one code unit of the code point, each value
  the name. The keys are pairwise distinct, and U+202E is looked up as
  \<open>RLO (Right-to-Left Override)\<close>. The catalogue is a constant of the program: no
  function takes it as state or returns it.
\<close>

theorem catalogue_is_the_specified_table:
  "map (\<lambda>(key, n). (map unat key, n)) UNSAFE_CHARS = map (\<lambda>(cp, n). ([cp], n)) spec_catalogue
   \<and> length UNSAFE_CHARS = 15
   \<and> distinct (map fst UNSAFE_CHARS)
   \<and> distinct (map fst spec_catalogue)
   \<and> lookup [0x202E] = Some ''RLO (Right-to-Left Override)''"
  by (simp add: UNSAFE_CHARS_def spec_catalogue_def lookup_def)

section \<open>Files that are not UTF-8\<close>

text \<open>An environment whose one file starts with the byte \<open>0xFF\<close>, which occurs in no
  UTF-8 text, followed by the three bytes that encode U+202E.\<close>

definition binary_world :: world where
  "binary_world =
     \<lparr>git_ls_files = Some (js ''x.bin'' @ [newline]),
      file_bytes = (\<lambda>p. if p = js ''x.bin'' then Some [0xFF, 0xE2, 0x80, 0xAE] else None),
      report_writable = True\<rparr>"

text \<open>A file that cannot be read has no findings, and the shared state is left as it
  was.\<close>

lemma scanFile_unreadable:
  "file_bytes w filePath = None \<Longrightarrow> scanFile w li filePath = ([], li)"
  by (simp add: scanFile_def readFileSync_def)

lemma binary_world_read:
  "readFileSync binary_world (js ''x.bin'') = Some [0xFFFD, 0x202E]"
  by (simp add: readFileSync_def binary_world_def string_of_codepoints_def
      utf16_units_def in_range_def replacement_def)

lemma binary_world_scan:
  "fst (scanFile binary_world 0 (js ''x.bin'')) =
     [\<lparr>char = [0x202E], codepoint = ''U+202E'',
       name = Some ''RLO (Right-to-Left Override)'', position = 1, line = 1\<rparr>]"
  by (simp add: scanFile_findings [OF binary_world_read] catalogued_def lookup_def
      UNSAFE_CHARS_def mk_finding_def codepoint_label_def charCodeAt0_def
      number_toString.simps [of 16] digit_char_def toUpperCase_def padStart_def)

text \<open>
  C6. The claim says that a file that cannot be decoded as text has no findings, and
  the comment in the \<open>catch\<close> branch of \<open>scanFile\<close> says the same of a binary file
  or an encoding issue. The branch is reached only when \<open>readFileSync\<close> throws, and
  decoding does not throw: the bytes \<open>FF E2 80 AE\<close> are decoded to U+FFFD and U+202E
  and the scan returns one finding.
\<close>

theorem undecodable_file_is_scanned:
  "file_bytes binary_world (js ''x.bin'') = Some [0xFF, 0xE2, 0x80, 0xAE]
   \<and> utf8_decode [0xFF, 0xE2, 0x80, 0xAE] = [0xFFFD, 0x202E]
   \<and> fst (scanFile binary_world 0 (js ''x.bin'')) =
       [\<lparr>char = [0x202E], codepoint = ''U+202E'',
         name = Some ''RLO (Right-to-Left Override)'', position = 1, line = 1\<rparr>]"
proof (intro conjI)
  show "file_bytes binary_world (js ''x.bin'') = Some [0xFF, 0xE2, 0x80, 0xAE]"
    by (simp add: binary_world_def)
  show "utf8_decode [0xFF, 0xE2, 0x80, 0xAE] = [0xFFFD, 0x202E]"
    by (simp add: in_range_def replacement_def)
qed (rule binary_world_scan)

section \<open>The keys of the report\<close>

text \<open>An environment whose one tracked file is named \<open>__proto__\<close> and holds U+202E.\<close>

definition proto_world :: world where
  "proto_world =
     \<lparr>git_ls_files = Some (js ''__proto__'' @ [newline]),
      file_bytes = (\<lambda>p. if p = js ''__proto__'' then Some [0xE2, 0x80, 0xAE] else None),
      report_writable = True\<rparr>"

lemma proto_world_git: "git_ls_files proto_world = Some (js ''__proto__'' @ [newline])"
  by (simp add: proto_world_def)

lemma proto_world_paths: "scanned_paths (main proto_world) = [js ''__proto__'']"
  unfolding main_eq(1) [OF proto_world_git]
  by (simp add: js_def trim_def is_js_whitespace_def)

lemma proto_world_read: "readFileSync proto_world (js ''__proto__'') = Some [0x202E]"
  by (simp add: readFileSync_def proto_world_def string_of_codepoints_def
      utf16_units_def in_range_def)

lemma proto_world_scan:
  "findings_of proto_world (js ''__proto__'') =
     [\<lparr>char = [0x202E], codepoint = ''U+202E'',
       name = Some ''RLO (Right-to-Left Override)'', position = 0, line = 1\<rparr>]"
  by (simp add: findings_of_def scanFile_findings [OF proto_world_read] catalogued_def
      lookup_def UNSAFE_CHARS_def mk_finding_def codepoint_label_def charCodeAt0_def
      number_toString.simps [of 16] digit_char_def toUpperCase_def padStart_def)

lemma proto_world_report: "report (main proto_world) = []"
  unfolding main_eq(3) [OF proto_world_git] proto_world_paths
  by (simp add: record_findings_def set_property_def)

lemma proto_world_total: "total_count (main proto_world) = 1"
  unfolding main_eq(2) [OF proto_world_git] proto_world_paths
  by (simp add: proto_world_scan)

text \<open>
  C4. The claim says that a path is a key of the report exactly when its scan had a
  finding. The tracked file \<open>__proto__\<close> is scanned and has one finding, which is
  counted in the total and fails the run, but the assignment \<open>results[file] = findings\<close>
  creates no property for it: the report has no key and is written as \<open>{}\<close>.
\<close>

theorem proto_path_missing_from_report:
  "scanned_paths (main proto_world) = [js ''__proto__'']
   \<and> length (fst (scanFile proto_world 0 (js ''__proto__''))) = 1
   \<and> object_keys (report (main proto_world)) = []
   \<and> total_count (main proto_world) = 1
   \<and> exit_status (main proto_world) = 1
   \<and> report_writes (main proto_world) = [(jsonPath, js ''{}'')]"
proof (intro conjI)
  show "scanned_paths (main proto_world) = [js ''__proto__'']"
    by (rule proto_world_paths)
  show "length (fst (scanFile proto_world 0 (js ''__proto__''))) = 1"
    using proto_world_scan by (simp add: findings_of_def)
  show "object_keys (report (main proto_world)) = []"
    by (simp add: proto_world_report object_keys_def own_entries_def)
  show "total_count (main proto_world) = 1"
    by (rule proto_world_total)
  show "exit_status (main proto_world) = 1"
    by (simp add: main_eq(5) [OF proto_world_git] proto_world_total)
  show "report_writes (main proto_world) = [(jsonPath, js ''{}'')]"
    by (simp add: main_eq(4) [OF proto_world_git] proto_world_report JSON_stringify_empty)
qed

text \<open>For every other path the claim holds: the keys of the report are the scanned
  paths with a finding, apart from \<open>__proto__\<close>.\<close>

lemma set_own_entries: "set (own_entries obj) = set obj"
  by (auto simp: own_entries_def)

lemma keys_overwrite:
  "map fst (map (\<lambda>(k, x). if k = key then (k, v) else (k, x)) obj) = map fst obj"
  by (induction obj) auto

lemma keys_set_property:
  "fst ` set (set_property obj key v) =
     (if key = js ''__proto__'' then fst ` set obj else insert key (fst ` set obj))"
proof -
  have "fst ` set (map (\<lambda>(k, x). if k = key then (k, v) else (k, x)) obj) = fst ` set obj"
    using keys_overwrite [of key v obj] by (metis list.set_map)
  then show ?thesis
    by (auto simp: set_property_def simp del: set_map)
qed

lemma keys_foldl_record_findings:
  "fst ` set (foldl (record_findings w) obj files) =
     fst ` set obj \<union> {p \<in> set files. findings_of w p \<noteq> [] \<and> p \<noteq> js ''__proto__''}"
  by (induction files arbitrary: obj) (auto simp: record_findings_def keys_set_property)

lemma report_keys_except_proto:
  assumes "git_ls_files w = Some out"
  shows "set (object_keys (report (main w))) =
           {p \<in> set (scanned_paths (main w)). fst (scanFile w 0 p) \<noteq> [] \<and> p \<noteq> js ''__proto__''}"
  by (simp add: object_keys_def set_own_entries main_eq(3) [OF assms]
      keys_foldl_record_findings findings_of_def)

end
